theory Spec2Isabelle
  imports Main "HOL-Library.Sublist"
begin

section \<open>Values of a request body\<close>

text \<open>
  A request body, as the body parsers leave it in \<open>req.body\<close>: a JSON tree, or
  \<open>undefined\<close>. An object is the list of its own enumerable properties in enumeration
  order (the order of \<open>for (key in input)\<close>); its prototype is \<open>Object.prototype\<close>,
  which has no enumerable property. Numbers are never inspected by the code below.
\<close>

datatype json =
    JString string
  | JNumber int
  | JBool bool
  | JNull
  | JUndefined
  | JArray "json list"
  | JObject "(string \<times> json) list"

datatype js_error =
    TypeError string
  | RangeError string
  | Error string


section \<open>Strings of the language\<close>

text \<open>
  A string is the list of its code units, here below 256. \<open>String.prototype.trim\<close>
  removes white space and line terminators from both ends; in that range these are
  tab, line feed, vertical tab, form feed, carriage return, space and no-break space.
\<close>

definition js_whitespace :: "char \<Rightarrow> bool" where
  "js_whitespace c = (c \<in> set [CHR 0x09, CHR 0x0A, CHR 0x0B, CHR 0x0C, CHR 0x0D, CHR 0x20, CHR 0xA0])"

definition js_trim :: "string \<Rightarrow> string" where
  "js_trim s = rev (dropWhile js_whitespace (rev (dropWhile js_whitespace s)))"

text \<open>
  \<open>s.split(',')\<close>: the pieces between the commas, in order; at least one piece,
  and an empty piece wherever two commas meet or the string starts or ends with one.
\<close>

fun split_comma :: "string \<Rightarrow> string list" where
  "split_comma [] = [[]]"
| "split_comma (c # cs) =
     (if c = CHR '','' then [] # split_comma cs
      else (case split_comma cs of
              p # ps \<Rightarrow> (c # p) # ps
            | [] \<Rightarrow> [[c]]))"


section \<open>The sanitiser\<close>

subsection \<open>The library functions it calls\<close>

text \<open>
  \<open>validator.trim(str)\<close>, called without a set of characters, strips the white space
  (\<open>\s\<close>) at the left end and then at the right end.
\<close>

definition validator_trim :: "string \<Rightarrow> string" where
  "validator_trim str = rev (dropWhile js_whitespace (rev (dropWhile js_whitespace str)))"

text \<open>
  What is not modelled of the libraries and of the engine is a parameter: the checks of
  \<open>validator.isURL\<close> that follow its first one, the pass of DOMPurify through the
  DOM (parse, clean, write back), and the room on the call stack, counted in nested
  calls of \<open>sanitize\<close>.
\<close>

record sanitizer_lib =
  isURL_checks :: "string \<Rightarrow> bool"
  dom_purify :: "string \<Rightarrow> string"
  stack_room :: nat

text \<open>
  \<open>validator.isURL(url, { require_protocol: true })\<close> begins with
  \<^verbatim>\<open>if (!url || /[\s<>]/.test(url)) { return false; }\<close>
  and goes on to its other checks only after that.
\<close>

definition url_forbidden :: "char \<Rightarrow> bool" where
  "url_forbidden c = (js_whitespace c \<or> c = CHR ''<'' \<or> c = CHR ''>'')"

definition validator_isURL :: "sanitizer_lib \<Rightarrow> string \<Rightarrow> bool" where
  "validator_isURL L url =
     (if url = [] \<or> list_ex url_forbidden url then False else isURL_checks L url)"

text \<open>
  \<open>purify.sanitize(dirty)\<close>, with no configuration, returns at once when there is
  nothing to do:
  \<^verbatim>\<open>if (... && dirty.indexOf('<') === -1) { return dirty; }\<close>
  Only a string that holds a \<open><\<close> goes through the DOM.
\<close>

definition purify_sanitize :: "sanitizer_lib \<Rightarrow> string \<Rightarrow> string" where
  "purify_sanitize L dirty =
     (if CHR ''<'' \<in> set dirty then dom_purify L dirty else dirty)"

subsection \<open>The functions of the program\<close>

text \<open>
  \<^verbatim>\<open>
  function customEscape(value) {
      if (typeof value === 'string') {
          if (validator.isURL(value, { require_protocol: true })) {
              return value;
          }
          return value;
      }
      return value;
  }
  \<close>
\<close>

fun is_string :: "json \<Rightarrow> bool" where
  "is_string (JString s) = True"
| "is_string v = False"

fun string_of :: "json \<Rightarrow> string" where
  "string_of (JString s) = s"
| "string_of v = []"

definition customEscape :: "sanitizer_lib \<Rightarrow> json \<Rightarrow> json" where
  "customEscape L v =
     (if is_string v then
        (if validator_isURL L (string_of v) then v
         else v)
      else v)"


text \<open>
  \<^verbatim>\<open>
  function sanitize(input) {
      if (typeof input === 'string') {
          input = validator.trim(input);
          input = customEscape(input);
          return purify.sanitize(input);
      } else if (typeof input === 'object' && input !== null) {
          if (Array.isArray(input)) {
              return input.map(sanitize);
          } else {
              for (let key in input) {
                  if (input.hasOwnProperty(key)) {
                      input[key] = sanitize(input[key]);
                  }
              }
              return input;
          }
      } else {
          return input;
      }
  }
  \<close>
  The function recurses on the call stack and has no guard on the depth: the second
  argument of the model is the number of nested calls the stack still has room for, and a
  call made when there is none raises the engine's \<open>RangeError\<close>.

  \<open>input.hasOwnProperty\<close> is looked up on the object itself first. A body such as
  \<open>{"hasOwnProperty": 1}\<close> has an own property of that name, whose value is not a
  function, so the call raises a \<open>TypeError\<close> in the first round of the loop. The flag
  \<open>shadowed\<close> of \<open>sanitize_props\<close> records that; an assignment \<open>input[key] = ...\<close>
  never changes it, since it stores strings, arrays, objects and primitives only.
  Every enumerated key of a parsed body is an own key, so the test succeeds otherwise.
\<close>

definition own_hasOwnProperty :: "(string \<times> json) list \<Rightarrow> bool" where
  "own_hasOwnProperty ps = (''hasOwnProperty'' \<in> set (map fst ps))"

definition stack_overflow :: js_error where
  "stack_overflow = RangeError ''Maximum call stack size exceeded''"

fun sanitize :: "sanitizer_lib \<Rightarrow> nat \<Rightarrow> json \<Rightarrow> js_error + json"
  and sanitize_map :: "sanitizer_lib \<Rightarrow> nat \<Rightarrow> json list \<Rightarrow> js_error + json list"
  and sanitize_props ::
    "sanitizer_lib \<Rightarrow> nat \<Rightarrow> bool \<Rightarrow> (string \<times> json) list
       \<Rightarrow> js_error + (string \<times> json) list"
where
  "sanitize L 0 input = Inl stack_overflow"
| "sanitize L (Suc room) (JString s) =
     Inr (JString (purify_sanitize L
        (string_of (customEscape L (JString (validator_trim s))))))"
| "sanitize L (Suc room) (JArray xs) =
     (case sanitize_map L room xs of Inl e \<Rightarrow> Inl e | Inr ys \<Rightarrow> Inr (JArray ys))"
| "sanitize L (Suc room) (JObject ps) =
     (case sanitize_props L room (own_hasOwnProperty ps) ps of
        Inl e \<Rightarrow> Inl e
      | Inr qs \<Rightarrow> Inr (JObject qs))"
| "sanitize L (Suc room) (JNumber n) = Inr (JNumber n)"
| "sanitize L (Suc room) (JBool b) = Inr (JBool b)"
| "sanitize L (Suc room) JNull = Inr JNull"
| "sanitize L (Suc room) JUndefined = Inr JUndefined"
| "sanitize_map L room [] = Inr []"
| "sanitize_map L room (x # xs) =
     (case sanitize L room x of
        Inl e \<Rightarrow> Inl e
      | Inr y \<Rightarrow> (case sanitize_map L room xs of Inl e \<Rightarrow> Inl e | Inr ys \<Rightarrow> Inr (y # ys)))"
| "sanitize_props L room shadowed [] = Inr []"
| "sanitize_props L room shadowed ((k, v) # ps) =
     (if shadowed then Inl (TypeError ''input.hasOwnProperty is not a function'')
      else (case sanitize L room v of
              Inl e \<Rightarrow> Inl e
            | Inr w \<Rightarrow> (case sanitize_props L room shadowed ps of
                          Inl e \<Rightarrow> Inl e
                        | Inr qs \<Rightarrow> Inr ((k, w) # qs))))"

subsection \<open>Shape of a value\<close>

text \<open>
  \<open>skeleton v\<close> is \<open>v\<close> with every string leaf blanked: what is left is the
  nesting, the length and order of every array, the keys of every object in their
  order, and every leaf that is not a string. Two values have the same shape when their
  skeletons are equal.
\<close>

fun skeleton :: "json \<Rightarrow> json"
  and skeleton_list :: "json list \<Rightarrow> json list"
  and skeleton_props :: "(string \<times> json) list \<Rightarrow> (string \<times> json) list"
where
  "skeleton (JString s) = JString []"
| "skeleton (JNumber n) = JNumber n"
| "skeleton (JBool b) = JBool b"
| "skeleton JNull = JNull"
| "skeleton JUndefined = JUndefined"
| "skeleton (JArray xs) = JArray (skeleton_list xs)"
| "skeleton (JObject ps) = JObject (skeleton_props ps)"
| "skeleton_list [] = []"
| "skeleton_list (x # xs) = skeleton x # skeleton_list xs"
| "skeleton_props [] = []"
| "skeleton_props ((k, v) # ps) = (k, skeleton v) # skeleton_props ps"

text \<open>
  \<open>shadowing v\<close>: some object inside \<open>v\<close> has an own property named
  \<open>hasOwnProperty\<close>.
\<close>

fun shadowing :: "json \<Rightarrow> bool"
  and shadowing_list :: "json list \<Rightarrow> bool"
  and shadowing_props :: "(string \<times> json) list \<Rightarrow> bool"
where
  "shadowing (JArray xs) = shadowing_list xs"
| "shadowing (JObject ps) = (own_hasOwnProperty ps \<or> shadowing_props ps)"
| "shadowing (JString s) = False"
| "shadowing (JNumber n) = False"
| "shadowing (JBool b) = False"
| "shadowing JNull = False"
| "shadowing JUndefined = False"
| "shadowing_list [] = False"
| "shadowing_list (x # xs) = (shadowing x \<or> shadowing_list xs)"
| "shadowing_props [] = False"
| "shadowing_props ((k, v) # ps) = (shadowing v \<or> shadowing_props ps)"


text \<open>
  \<open>depth v\<close>: the number of nested calls of \<open>sanitize\<close> that \<open>v\<close> needs, one for
  the value itself and one more for each level of arrays and objects around its deepest
  leaf.
\<close>

fun depth :: "json \<Rightarrow> nat"
  and depth_list :: "json list \<Rightarrow> nat"
  and depth_props :: "(string \<times> json) list \<Rightarrow> nat"
where
  "depth (JArray xs) = Suc (depth_list xs)"
| "depth (JObject ps) = Suc (depth_props ps)"
| "depth (JString s) = Suc 0"
| "depth (JNumber n) = Suc 0"
| "depth (JBool b) = Suc 0"
| "depth JNull = Suc 0"
| "depth JUndefined = Suc 0"
| "depth_list [] = 0"
| "depth_list (x # xs) = max (depth x) (depth_list xs)"
| "depth_props [] = 0"
| "depth_props ((k, v) # ps) = max (depth v) (depth_props ps)"

subsection \<open>An instance of the parameters\<close>

text \<open>
  For following the definitions on examples: the further URL checks look for an
  \<open>http\<close> or \<open>https\<close> scheme, the stack has room for ten thousand nested calls,
  and the pass through the DOM gives its input back, as the library does for markup it
  accepts in full. This stand-in removes nothing, so it says nothing about input with
  markup that the library would strip; the examples below hold no \<open><\<close>.
\<close>

definition sample_lib :: sanitizer_lib where
  "sample_lib =
     \<lparr> isURL_checks = (\<lambda>s. prefix ''http://'' s \<or> prefix ''https://'' s),
       dom_purify = (\<lambda>s. s),
       stack_room = 10000 \<rparr>"

section \<open>Requests, responses and middleware\<close>

datatype http_method = GET | HEAD | POST | PUT | DELETE | PATCH | OPTIONS

text \<open>
  What the pipeline reads of a request: the method, the path, the \<open>Origin\<close> header
  (\<open>req.header('Origin')\<close>, the same as \<open>req.headers.origin\<close>), the
  \<open>Access-Control-Request-Headers\<close> header, and the parsed body.
\<close>

record request =
  req_method :: http_method
  req_path :: string
  req_origin :: "string option"
  req_acrh :: "string option"
  req_body :: json

datatype payload = NoPayload | JsonPayload json | TextPayload string

text \<open>
  A response under construction: the status (200 until set), the headers set with
  \<open>res.header\<close> or \<open>res.setHeader\<close>, the fields of the \<open>Vary\<close> header, and what
  was sent. Headers that Express adds by itself when it sends are not recorded.
\<close>

record response =
  res_status :: nat
  res_headers :: "(string \<times> string) list"
  res_vary :: "string list"
  res_payload :: payload

definition fresh_response :: response where
  "fresh_response = \<lparr> res_status = 200, res_headers = [], res_vary = [], res_payload = NoPayload \<rparr>"

fun put :: "string \<Rightarrow> string \<Rightarrow> (string \<times> string) list \<Rightarrow> (string \<times> string) list" where
  "put k v [] = [(k, v)]"
| "put k v ((n, w) # hs) = (if n = k then (k, v) # hs else (n, w) # put k v hs)"

definition set_header :: "string \<Rightarrow> string \<Rightarrow> response \<Rightarrow> response" where
  "set_header k v res = res\<lparr>res_headers := put k v (res_headers res)\<rparr>"

definition header :: "response \<Rightarrow> string \<Rightarrow> string option" where
  "header res k = map_of (res_headers res) k"

definition vary :: "string \<Rightarrow> response \<Rightarrow> response" where
  "vary field res =
     (if field \<in> set (res_vary res) then res else res\<lparr>res_vary := res_vary res @ [field]\<rparr>)"

text \<open>A header value, or any optional string, counts as true when present and not empty.\<close>

fun truthy :: "string option \<Rightarrow> bool" where
  "truthy None = False"
| "truthy (Some s) = (s \<noteq> [])"

text \<open>
  A middleware ends in one of three ways: \<open>next()\<close>, \<open>next(err)\<close> (also when it
  throws), or by sending the response.
\<close>

datatype outcome =
    Next request response
  | NextErr js_error request response
  | End response

type_synonym middleware = "request \<Rightarrow> response \<Rightarrow> outcome"

section \<open>The \<open>cors\<close> package\<close>

text \<open>
  The middleware that \<open>cors(options)\<close> builds, for the options this program passes,
  as the package documents it. Options left out take the package's defaults: origin
  \<open>*\<close>, methods \<open>GET,HEAD,PUT,PATCH,POST,DELETE\<close>, \<open>preflightContinue\<close> false,
  \<open>optionsSuccessStatus\<close> 204. An origin option is \<open>*\<close>, a boolean, or a function
  that reports \<open>callback(err)\<close> or \<open>callback(null, flag)\<close>. \<open>maxAge\<close> is kept as
  the text written into the header.
\<close>

datatype cors_origin =
    OriginStar
  | OriginFlag bool
  | OriginCallback "string option \<Rightarrow> js_error + bool"

datatype cors_methods = MethodsString string | MethodsList "string list"

record cors_options =
  opt_origin :: cors_origin
  opt_methods :: cors_methods
  opt_allowedHeaders :: "string list option"
  opt_credentials :: bool
  opt_maxAge :: "string option"
  opt_preflightContinue :: bool
  opt_optionsSuccessStatus :: nat

definition cors_defaults :: cors_options where
  "cors_defaults =
     \<lparr> opt_origin = OriginStar,
       opt_methods = MethodsString ''GET,HEAD,PUT,PATCH,POST,DELETE'',
       opt_allowedHeaders = None,
       opt_credentials = False,
       opt_maxAge = None,
       opt_preflightContinue = False,
       opt_optionsSuccessStatus = 204 \<rparr>"

fun join_comma :: "string list \<Rightarrow> string" where
  "join_comma [] = []"
| "join_comma [x] = x"
| "join_comma (x # y # zs) = x @ '','' @ join_comma (y # zs)"

text \<open>A header is written only when its value is present and not empty.\<close>

definition apply_header :: "string \<Rightarrow> string option \<Rightarrow> response \<Rightarrow> response" where
  "apply_header k v res = (case v of Some s \<Rightarrow> if s \<noteq> [] then set_header k s res else res | None \<Rightarrow> res)"

definition configureOrigin :: "bool \<Rightarrow> request \<Rightarrow> response \<Rightarrow> response" where
  "configureOrigin star req res =
     (if star then set_header ''Access-Control-Allow-Origin'' ''*'' res
      else vary ''Origin'' (apply_header ''Access-Control-Allow-Origin'' (req_origin req) res))"

definition configureCredentials :: "cors_options \<Rightarrow> response \<Rightarrow> response" where
  "configureCredentials opts res =
     (if opt_credentials opts then set_header ''Access-Control-Allow-Credentials'' ''true'' res
      else res)"

definition configureMethods :: "cors_options \<Rightarrow> response \<Rightarrow> response" where
  "configureMethods opts res =
     apply_header ''Access-Control-Allow-Methods''
       (Some (case opt_methods opts of MethodsString m \<Rightarrow> m | MethodsList ms \<Rightarrow> join_comma ms)) res"

definition configureAllowedHeaders :: "cors_options \<Rightarrow> request \<Rightarrow> response \<Rightarrow> response" where
  "configureAllowedHeaders opts req res =
     (case opt_allowedHeaders opts of
        None \<Rightarrow>
          apply_header ''Access-Control-Allow-Headers'' (req_acrh req)
            (vary ''Access-Control-Request-Headers'' res)
      | Some hs \<Rightarrow> apply_header ''Access-Control-Allow-Headers'' (Some (join_comma hs)) res)"

definition configureMaxAge :: "cors_options \<Rightarrow> response \<Rightarrow> response" where
  "configureMaxAge opts res = apply_header ''Access-Control-Max-Age'' (opt_maxAge opts) res"

text \<open>
  The package's \<open>cors(options, req, res, next)\<close>, once the origin is settled: a
  preflight (\<open>OPTIONS\<close>) gets all the headers and, unless \<open>preflightContinue\<close> is set,
  is answered on the spot with \<open>optionsSuccessStatus\<close> and \<open>Content-Length: 0\<close>;
  any other request gets the origin and credentials headers and goes on.
\<close>

definition cors_respond :: "cors_options \<Rightarrow> bool \<Rightarrow> middleware" where
  "cors_respond opts star req res =
     (if req_method req = OPTIONS then
        (let res' = configureMaxAge opts
                      (configureAllowedHeaders opts req
                        (configureMethods opts
                          (configureCredentials opts
                            (configureOrigin star req res))))
         in if opt_preflightContinue opts then Next req res'
            else End (set_header ''Content-Length'' ''0''
                        (res'\<lparr>res_status := opt_optionsSuccessStatus opts\<rparr>)))
      else Next req (configureCredentials opts (configureOrigin star req res)))"

text \<open>
  The middleware itself: it settles the origin first. An origin function is called with
  the request's origin; when it reports an error the middleware calls \<open>next(err)\<close>,
  when it reports a false flag it calls \<open>next()\<close> and sets nothing.
\<close>

definition cors :: "cors_options \<Rightarrow> middleware" where
  "cors opts req res =
     (case opt_origin opts of
        OriginStar \<Rightarrow> cors_respond opts True req res
      | OriginFlag b \<Rightarrow> (if b then cors_respond opts False req res else Next req res)
      | OriginCallback f \<Rightarrow>
          (case f (req_origin req) of
             Inl err \<Rightarrow> NextErr err req res
           | Inr b \<Rightarrow> (if b then cors_respond opts False req res else Next req res)))"

section \<open>The middleware of the program\<close>

text \<open>\<^verbatim>\<open>app.use(cors({ origin: true, credentials: true }));\<close>\<close>

definition compulsory_cors :: cors_options where
  "compulsory_cors = cors_defaults\<lparr>opt_origin := OriginFlag True, opt_credentials := True\<rparr>"

text \<open>
  \<^verbatim>\<open>
  origin: function (origin, callback) {
      if (!origin) {
          return callback(null, true);
      }
      if (whitelist.includes(origin)) {
          callback(null, true);
      } else {
          callback(new Error('Not allowed by CORS'));
      }
  },
  \<close>
  \<open>!origin\<close> holds for a missing header and for an empty one.
\<close>

definition origin_callback :: "string list \<Rightarrow> string option \<Rightarrow> js_error + bool" where
  "origin_callback whitelist origin =
     (if \<not> truthy origin then Inr True
      else if the origin \<in> set whitelist then Inr True
      else Inl (Error ''Not allowed by CORS''))"

definition corsOptions :: "string list \<Rightarrow> cors_options" where
  "corsOptions whitelist =
     \<lparr> opt_origin = OriginCallback (origin_callback whitelist),
       opt_methods = MethodsList [''GET'', ''POST'', ''PUT'', ''DELETE'', ''OPTIONS'', ''PATCH''],
       opt_allowedHeaders =
         Some [''Origin'', ''X-Requested-With'', ''Content-Type'', ''Accept'', ''Authorization'',
               ''Access-Control-Allow-Origin'', ''Access-Control-Allow-Headers'',
               ''Access-Control-Allow-Methods''],
       opt_credentials = True,
       opt_maxAge = Some ''86400'',
       opt_preflightContinue = False,
       opt_optionsSuccessStatus = 204 \<rparr>"

text \<open>
  \<^verbatim>\<open>
  app.use((req, res, next) => {
      res.header('Access-Control-Allow-Origin', req.header('Origin') || '*');
      res.header('Access-Control-Allow-Credentials', 'true');
      res.header('Access-Control-Allow-Methods', 'GET,HEAD,PUT,PATCH,POST,DELETE,OPTIONS');
      res.header('Access-Control-Allow-Headers', 'Origin, X-Requested-With, Content-Type, Accept, Authorization');
      if (req.method === 'OPTIONS') {
          return res.status(204).end();
      }
      next();
  });
  \<close>
\<close>

definition cors_headers :: middleware where
  "cors_headers req res =
     (let res1 = set_header ''Access-Control-Allow-Origin''
                   (case req_origin req of Some s \<Rightarrow> if s \<noteq> [] then s else ''*'' | None \<Rightarrow> ''*'') res;
          res2 = set_header ''Access-Control-Allow-Credentials'' ''true'' res1;
          res3 = set_header ''Access-Control-Allow-Methods''
                   ''GET,HEAD,PUT,PATCH,POST,DELETE,OPTIONS'' res2;
          res4 = set_header ''Access-Control-Allow-Headers''
                   ''Origin, X-Requested-With, Content-Type, Accept, Authorization'' res3
      in if req_method req = OPTIONS then End (res4\<lparr>res_status := 204\<rparr>)
         else Next req res4)"

text \<open>
  \<^verbatim>\<open>
  app.use((req, res, next) => {
      const origin = req.header('Origin');
      if (origin && !whitelist.includes(origin)) {
          console.log(`Blocked request from unauthorized origin: ${origin}`);
          return res.status(403).json({
              error: 'CORS policy does not allow access from this origin.',
              origin: origin
          });
      }
      next();
  });
  \<close>
\<close>

definition blocked_body :: "string \<Rightarrow> json" where
  "blocked_body origin =
     JObject [(''error'', JString ''CORS policy does not allow access from this origin.''),
              (''origin'', JString origin)]"

definition origin_guard :: "string list \<Rightarrow> middleware" where
  "origin_guard whitelist req res =
     (case req_origin req of
        Some origin \<Rightarrow>
          (if origin \<noteq> [] \<and> origin \<notin> set whitelist
           then End (res\<lparr>res_status := 403, res_payload := JsonPayload (blocked_body origin)\<rparr>)
           else Next req res)
      | None \<Rightarrow> Next req res)"

text \<open>
  \<^verbatim>\<open>
  app.use((req, res, next) => {
      req.body = sanitize(req.body);
      next();
  });
  \<close>
  An exception thrown by a middleware reaches Express as \<open>next(err)\<close>.
\<close>

definition sanitize_body :: "sanitizer_lib \<Rightarrow> middleware" where
  "sanitize_body L req res =
     (case sanitize L (stack_room L) (req_body req) of
        Inl err \<Rightarrow> NextErr err req res
      | Inr b \<Rightarrow> Next (req\<lparr>req_body := b\<rparr>) res)"

text \<open>
  \<^verbatim>\<open>
  app.get("*", (req, res) => {
      res.status(404).send("API NOT FOUND");
  });
  \<close>
  A \<open>get\<close> route also serves \<open>HEAD\<close>; for other methods the route does not match.
\<close>

definition get_route :: "request \<Rightarrow> bool" where
  "get_route req = (req_method req = GET \<or> req_method req = HEAD)"

definition not_found :: middleware where
  "not_found req res = End (res\<lparr>res_status := 404, res_payload := TextPayload ''API NOT FOUND''\<rparr>)"

section \<open>The application\<close>

text \<open>
  The collaborators that are not in the files at hand are parameters: the parsers and
  the logger mounted first, the version validator and the router mounted on
  \<open>/clientApis\<close>, helmet's filter, the Mongo sanitiser, the error handler
  \<open>logErrors\<close>, and Express's test of a request path against a mount path.
\<close>

record externals =
  cookieParser :: middleware
  jsonParser :: middleware
  urlencodedParser :: middleware
  morgan :: middleware
  appVersionValidator :: middleware
  router :: middleware
  xssFilter :: middleware
  mongoSanitize :: middleware
  logErrors :: "js_error \<Rightarrow> middleware"
  mounted :: "string \<Rightarrow> string \<Rightarrow> bool"

datatype stage =
    CookieParser | ParseJson | ParseUrlencoded | Logger
  | CompulsoryCors | EnhancedCors
  | SetCorsHeaders | IfPreflight
  | OriginGuard
  | VersionGate | Dispatch
  | XssFilter | SanitizeBody | MongoPatternStrip
  | LogErrors | NotFound

text \<open>
  A layer of the stack: a middleware together with the test that says which requests it
  is for (every request, the paths under a mount path, the methods of a route), or an
  error handler. Each carries the names of the stages it stands for.
\<close>

datatype layer =
    Use "stage list" "request \<Rightarrow> bool" middleware
  | UseError "stage list" "js_error \<Rightarrow> middleware"

fun stages :: "layer \<Rightarrow> stage list" where
  "stages (Use names applies mw) = names"
| "stages (UseError names h) = names"

text \<open>
  How a request ends: a layer sent the response, or the stack ran out and Express's
  final handler answers (404, or the error's status, 500 by default). Both carry the
  stages that ran, in order.
\<close>

datatype result =
    Responded response "stage list"
  | FinalHandler "js_error option" request response "stage list"

text \<open>
  Express walks the stack in the order of the \<open>app.use\<close> calls. Without a pending
  error it skips error handlers and the layers that are not for this request; with one
  it skips everything but error handlers.
\<close>

fun run :: "layer list \<Rightarrow> js_error option \<Rightarrow> request \<Rightarrow> response \<Rightarrow> stage list \<Rightarrow> result"
where
  "run [] err req res tr = FinalHandler err req res tr"
| "run (Use names applies mw # ls) None req res tr =
     (if applies req then
        (case mw req res of
           Next req' res' \<Rightarrow> run ls None req' res' (tr @ names)
         | NextErr e req' res' \<Rightarrow> run ls (Some e) req' res' (tr @ names)
         | End res' \<Rightarrow> Responded res' (tr @ names))
      else run ls None req res tr)"
| "run (UseError names h # ls) None req res tr = run ls None req res tr"
| "run (Use names applies mw # ls) (Some e) req res tr = run ls (Some e) req res tr"
| "run (UseError names h # ls) (Some e) req res tr =
     (case h e req res of
        Next req' res' \<Rightarrow> run ls None req' res' (tr @ names)
      | NextErr e' req' res' \<Rightarrow> run ls (Some e') req' res' (tr @ names)
      | End res' \<Rightarrow> Responded res' (tr @ names))"

definition everywhere :: "request \<Rightarrow> bool" where
  "everywhere req = True"

definition under :: "externals \<Rightarrow> string \<Rightarrow> request \<Rightarrow> bool" where
  "under X p req = mounted X p (req_path req)"

text \<open>
  The stack, in the order of the file (line numbers on the right):
  \<^verbatim>\<open>
  app.use(cookieParser());                                             27
  app.use(bodyParser.json({ limit: '50mb' }));                         28
  app.use(bodyParser.urlencoded({ limit: '50mb', extended: true }));   29
  app.use(logger('combined'));                                         30
  app.use(cors({ origin: true, credentials: true }));                  33
  app.use(cors(corsOptions));                                          73
  app.use((req, res, next) => { ... CORS headers, preflight ... });    76
  app.use((req, res, next) => { ... origin guard ... });               89
  app.use('/clientApis', appVersionValidator(), router);              102
  app.use(helmet.xssFilter());                                        103
  app.use((req, res, next) => { req.body = sanitize(req.body); ... });137
  app.use(mongoSanitize({ ... }));                                    142
  app.use(logErrors);                                                 148
  app.get("*", (req, res) => { res.status(404).send(...); });         150
  \<close>
  The two handlers mounted on \<open>/clientApis\<close> are two layers with the same test.
\<close>

definition app_layers :: "externals \<Rightarrow> sanitizer_lib \<Rightarrow> string list \<Rightarrow> layer list" where
  "app_layers X L whitelist =
     [ Use [CookieParser] everywhere (cookieParser X),
       Use [ParseJson] everywhere (jsonParser X),
       Use [ParseUrlencoded] everywhere (urlencodedParser X),
       Use [Logger] everywhere (morgan X),
       Use [CompulsoryCors] everywhere (cors compulsory_cors),
       Use [EnhancedCors] everywhere (cors (corsOptions whitelist)),
       Use [SetCorsHeaders, IfPreflight] everywhere cors_headers,
       Use [OriginGuard] everywhere (origin_guard whitelist),
       Use [VersionGate] (under X ''/clientApis'') (appVersionValidator X),
       Use [Dispatch] (under X ''/clientApis'') (router X),
       Use [XssFilter] everywhere (xssFilter X),
       Use [SanitizeBody] everywhere (sanitize_body L),
       Use [MongoPatternStrip] everywhere (mongoSanitize X),
       UseError [LogErrors] (logErrors X),
       Use [NotFound] get_route not_found ]"

definition handle :: "externals \<Rightarrow> sanitizer_lib \<Rightarrow> string list \<Rightarrow> request \<Rightarrow> result" where
  "handle X L whitelist req = run (app_layers X L whitelist) None req fresh_response []"

fun trace :: "result \<Rightarrow> stage list" where
  "trace (Responded res tr) = tr"
| "trace (FinalHandler err req res tr) = tr"

text \<open>
  The stages registered up to the route dispatcher, in the order of the file.
\<close>

definition upstream :: "stage list" where
  "upstream = [CookieParser, ParseJson, ParseUrlencoded, Logger, CompulsoryCors, EnhancedCors,
               SetCorsHeaders, IfPreflight, OriginGuard, VersionGate, Dispatch]"

subsection \<open>Start-up\<close>

text \<open>
  \<^verbatim>\<open>
  if (!process.env.CORS_WHITELIST_URLS) {
      throw new Error('CORS_WHITELIST_URLS environment variable is not set');
  }
  const whitelist = process.env.CORS_WHITELIST_URLS.split(',').map(url => url.trim());
  ...
  const port = process.env.PORT || 8080;
  dbConnect()
      .then((db) => { app.listen(port, ...); })
      .catch((error) => { ...; return; });
  \<close>
  The environment is the one left by \<open>loadEnvVariables()\<close>; whether the database
  connects is a parameter. The throw is at the top level of the module, so nothing
  after it runs: \<open>app.listen\<close> is never reached.
\<close>

definition read_whitelist :: "(string \<rightharpoonup> string) \<Rightarrow> js_error + string list" where
  "read_whitelist env =
     (if \<not> truthy (env ''CORS_WHITELIST_URLS'')
      then Inl (Error ''CORS_WHITELIST_URLS environment variable is not set'')
      else Inr (map js_trim (split_comma (the (env ''CORS_WHITELIST_URLS'')))))"

datatype boot =
    Crashed js_error
  | NotListening "string list"
  | Listening string "string list"

definition bootstrap :: "(string \<rightharpoonup> string) \<Rightarrow> bool \<Rightarrow> boot" where
  "bootstrap env db_connects =
     (case read_whitelist env of
        Inl err \<Rightarrow> Crashed err
      | Inr whitelist \<Rightarrow>
          (let port = (if truthy (env ''PORT'') then the (env ''PORT'') else ''8080'')
           in if db_connects then Listening port whitelist else NotListening whitelist))"

subsection \<open>Collaborators for examples\<close>

text \<open>
  Stand-ins on which a request can be followed to its end: every collaborator calls
  \<open>next()\<close> and changes nothing, except the router, which answers 200 with the body it
  was handed, and \<open>logErrors\<close>, which passes the error on. A path is under a mount
  path when it is that path or continues it after a slash.
\<close>

definition sample_externals :: externals where
  "sample_externals =
     \<lparr> cookieParser = Next, jsonParser = Next, urlencodedParser = Next, morgan = Next,
       appVersionValidator = Next,
       router = (\<lambda>req res. End (res\<lparr>res_status := 200, res_payload := JsonPayload (req_body req)\<rparr>)),
       xssFilter = Next, mongoSanitize = Next,
       logErrors = NextErr,
       mounted = (\<lambda>p path. path = p \<or> prefix (p @ ''/'') path) \<rparr>"

definition sample_request ::
  "http_method \<Rightarrow> string \<Rightarrow> string option \<Rightarrow> json \<Rightarrow> request" where
  "sample_request m p origin b =
     \<lparr> req_method = m, req_path = p, req_origin = origin, req_acrh = None, req_body = b \<rparr>"

section \<open>Properties of the sanitiser\<close>

lemma string_of_customEscape: "string_of (customEscape L (JString s)) = s"
  by (simp add: customEscape_def)

lemma sanitize_JString:
  "sanitize L (Suc room) (JString s) = Inr (JString (purify_sanitize L (validator_trim s)))"
  by (simp add: string_of_customEscape)


lemma length_skeleton_list: "length (skeleton_list xs) = length xs"
  by (induction xs) auto

lemma keys_skeleton_props: "map fst (skeleton_props ps) = map fst ps"
  by (induction ps) auto

lemma sanitize_shape_aux:
  "(case sanitize L n v of Inl e \<Rightarrow> True | Inr w \<Rightarrow> skeleton w = skeleton v)"
  "(case sanitize_map L n xs of Inl e \<Rightarrow> True | Inr ys \<Rightarrow> skeleton_list ys = skeleton_list xs)"
  "(case sanitize_props L n h ps of Inl e \<Rightarrow> True
    | Inr qs \<Rightarrow> skeleton_props qs = skeleton_props ps)"
proof (induction L n v and L n xs and L n h ps rule: sanitize_sanitize_map_sanitize_props.induct)
  case (3 L room xs)
  then show ?case by (cases "sanitize_map L room xs") simp_all
next
  case (4 L room ps)
  then show ?case by (cases "sanitize_props L room (own_hasOwnProperty ps) ps") simp_all
next
  case (10 L room x xs)
  show ?case
  proof (cases "sanitize L room x")
    case (Inl e)
    then show ?thesis by simp
  next
    case (Inr y)
    with 10 show ?thesis by (cases "sanitize_map L room xs") simp_all
  qed
next
  case (12 L room shadowed k v ps)
  show ?case
  proof (cases "shadowed")
    case True
    then show ?thesis by simp
  next
    case False
    show ?thesis
    proof (cases "sanitize L room v")
      case (Inl e)
      with False show ?thesis by simp
    next
      case (Inr w)
      with 12 False show ?thesis by (cases "sanitize_props L room shadowed ps") simp_all
    qed
  qed
qed simp_all

lemma sanitize_returns_aux:
  "(\<not> shadowing v \<and> depth v \<le> n \<longrightarrow> (\<exists>w. sanitize L n v = Inr w))"
  "(\<not> shadowing_list xs \<and> depth_list xs \<le> n \<longrightarrow> (\<exists>ys. sanitize_map L n xs = Inr ys))"
  "(\<not> h \<and> \<not> shadowing_props ps \<and> depth_props ps \<le> n
      \<longrightarrow> (\<exists>qs. sanitize_props L n h ps = Inr qs))"
proof (induction L n v and L n xs and L n h ps rule: sanitize_sanitize_map_sanitize_props.induct)
  case (1 L input)
  show ?case by (cases input) simp_all
next
  case (3 L room xs)
  then show ?case by (cases "sanitize_map L room xs") auto
next
  case (4 L room ps)
  then show ?case by (cases "sanitize_props L room (own_hasOwnProperty ps) ps") auto
next
  case (10 L room x xs)
  then show ?case by (cases "sanitize L room x"; cases "sanitize_map L room xs") auto
next
  case (12 L room shadowed k v ps)
  then show ?case by (cases "sanitize L room v"; cases "sanitize_props L room shadowed ps") auto
qed simp_all

lemma sanitize_preserves_shape:
  assumes "\<not> shadowing v" and "depth v \<le> room"
  shows "\<exists>w. sanitize L room v = Inr w \<and> skeleton w = skeleton v"
proof -
  from assms obtain w where w: "sanitize L room v = Inr w"
    using sanitize_returns_aux(1) [where v = v and L = L and n = room] by auto
  with sanitize_shape_aux(1) [where L = L and v = v and n = room] have "skeleton w = skeleton v"
    by simp
  with w show ?thesis by blast
qed

text \<open>
  The stack runs out on a value nested more deeply than there is room for.
\<close>

lemma sanitize_overflow:
  "sanitize L (Suc (Suc 0)) (JArray [JArray [JString s]]) = Inl stack_overflow"
  by simp

text \<open>
  C5. On the body \<open>{"hasOwnProperty": 1}\<close> the sanitiser does not return a value of
  the same shape: it raises a \<open>TypeError\<close>. (Lemma \<open>sanitize_preserves_shape\<close> above
  is the claim on the other values: where no object has such a key and the stack has
  room, the result has the skeleton of the input.)
\<close>

theorem sanitize_hasOwnProperty_raises:
  "sanitize sample_lib (stack_room sample_lib) (JObject [(''hasOwnProperty'', JNumber 1)])
     = Inl (TypeError ''input.hasOwnProperty is not a function'')"
  by (simp add: own_hasOwnProperty_def sample_lib_def eval_nat_numeral)


lemma trim_url_example:
  "validator_trim '' https://shop.example/search?q=tea&page=2 ''
     = ''https://shop.example/search?q=tea&page=2''"
  by (simp add: validator_trim_def js_whitespace_def)

lemma sample_stack_room: "0 < stack_room sample_lib"
  by (simp add: sample_lib_def)



lemma isURL_no_markup: "validator_isURL L url \<Longrightarrow> CHR ''<'' \<notin> set url"
  by (auto simp: validator_isURL_def list_ex_iff url_forbidden_def split: if_splits)

text \<open>
  C8. A string is a well-formed URL with an explicit scheme when, trimmed, it passes the
  test the program makes, \<open>validator.isURL\<close> with \<open>require_protocol\<close>. Every such
  string comes back trimmed and otherwise unchanged. The reason is not \<open>customEscape\<close>,
  which returns every value as it is: the URL test admits no \<open><\<close>, and the purifier
  returns a string without \<open><\<close> as it is.
\<close>

theorem sanitize_preserves_url:
  assumes "validator_isURL L (validator_trim s)" and "0 < room"
  shows "sanitize L room (JString s) = Inr (JString (validator_trim s))"
proof -
  from assms(2) obtain r where r: "room = Suc r" by (cases room) auto
  from assms(1) have "CHR ''<'' \<notin> set (validator_trim s)" by (rule isURL_no_markup)
  with r show ?thesis by (simp add: string_of_customEscape purify_sanitize_def)
qed

theorem sanitize_preserves_url_witness:
  "sanitize sample_lib (stack_room sample_lib)
     (JString '' https://shop.example/search?q=tea&page=2 '')
     = Inr (JString ''https://shop.example/search?q=tea&page=2'')"
proof -
  have h: "validator_isURL sample_lib
             (validator_trim '' https://shop.example/search?q=tea&page=2 '')"
    by (simp add: trim_url_example validator_isURL_def js_whitespace_def url_forbidden_def
        sample_lib_def)
  have "sanitize sample_lib (stack_room sample_lib)
          (JString '' https://shop.example/search?q=tea&page=2 '')
          = Inr (JString (validator_trim '' https://shop.example/search?q=tea&page=2 ''))"
    by (rule sanitize_preserves_url [OF h sample_stack_room])
  then show ?thesis by (simp only: trim_url_example)
qed

text \<open>
  C10. \<open>customEscape\<close> is the identity: whatever the URL test answers, and whatever
  the value is, the value comes back unchanged.
\<close>

theorem customEscape_identity: "customEscape L v = v"
  by (simp add: customEscape_def)

section \<open>Properties of the pipeline\<close>

subsection \<open>The stages that ran\<close>

lemma run_trace:
  "\<exists>t. trace (run ls err req res tr) = tr @ t \<and> subseq t (concat (map stages ls))"
proof (induction ls err req res tr rule: run.induct)
  case (1 err req res tr)
  show ?case by simp
next
  case (2 names applies mw ls req res tr)
  show ?case
  proof (cases "applies req")
    case False
    with 2 obtain t where "trace (run ls None req res tr) = tr @ t" "subseq t (concat (map stages ls))"
      by auto
    with False show ?thesis by (auto intro: list_emb_append2)
  next
    case True
    show ?thesis
    proof (cases "mw req res")
      case (Next req' res')
      with 2 True obtain t where t: "trace (run ls None req' res' (tr @ names)) = (tr @ names) @ t"
        "subseq t (concat (map stages ls))" by blast
      have "subseq (names @ t) (names @ concat (map stages ls))"
        using t(2) by (simp add: subseq_append')
      with t(1) True Next show ?thesis by auto
    next
      case (NextErr e req' res')
      with 2 True obtain t where t: "trace (run ls (Some e) req' res' (tr @ names)) = (tr @ names) @ t"
        "subseq t (concat (map stages ls))" by blast
      have "subseq (names @ t) (names @ concat (map stages ls))"
        using t(2) by (simp add: subseq_append')
      with t(1) True NextErr show ?thesis by auto
    next
      case (End res')
      have "subseq (names @ []) (names @ concat (map stages ls))"
        by (simp only: subseq_append') simp
      with True End show ?thesis by auto
    qed
  qed
next
  case (3 names h ls req res tr)
  then obtain t where "trace (run ls None req res tr) = tr @ t" "subseq t (concat (map stages ls))"
    by auto
  then show ?case by (auto intro: list_emb_append2)
next
  case (4 names applies mw ls e req res tr)
  then obtain t where "trace (run ls (Some e) req res tr) = tr @ t" "subseq t (concat (map stages ls))"
    by auto
  then show ?case by (auto intro: list_emb_append2)
next
  case (5 names h ls e req res tr)
  show ?case
  proof (cases "h e req res")
    case (Next req' res')
    with 5 obtain t where t: "trace (run ls None req' res' (tr @ names)) = (tr @ names) @ t"
      "subseq t (concat (map stages ls))" by blast
    have "subseq (names @ t) (names @ concat (map stages ls))"
      using t(2) by (simp add: subseq_append')
    with t(1) Next show ?thesis by auto
  next
    case (NextErr e' req' res')
    with 5 obtain t where t: "trace (run ls (Some e') req' res' (tr @ names)) = (tr @ names) @ t"
      "subseq t (concat (map stages ls))" by blast
    have "subseq (names @ t) (names @ concat (map stages ls))"
      using t(2) by (simp add: subseq_append')
    with t(1) NextErr show ?thesis by auto
  next
    case (End res')
    have "subseq (names @ []) (names @ concat (map stages ls))"
      by (simp only: subseq_append') simp
    with End show ?thesis by auto
  qed
qed

lemma stages_app_layers:
  "concat (map stages (app_layers X L W)) = upstream @ [XssFilter, SanitizeBody, MongoPatternStrip, LogErrors, NotFound]"
  by (simp add: app_layers_def upstream_def)

lemma trace_handle_subseq:
  "subseq (trace (handle X L W req)) (upstream @ [XssFilter, SanitizeBody, MongoPatternStrip, LogErrors, NotFound])"
  using run_trace [of "app_layers X L W" None req fresh_response "[]"]
  by (auto simp: handle_def stages_app_layers)

lemma distinct_subseq: "subseq xs ys \<Longrightarrow> distinct ys \<Longrightarrow> distinct xs"
  by (auto simp: subseq_conv_nths)


lemma trace_stage_origin:
  assumes "s \<in> set (trace (run ls err req res tr))"
  shows "s \<in> set tr \<or> s \<in> set (concat (map stages ls))"
proof -
  obtain t where t: "trace (run ls err req res tr) = tr @ t" "subseq t (concat (map stages ls))"
    using run_trace by blast
  from t(2) have "set t \<subseteq> set (concat (map stages ls))"
    by (auto dest: list_emb_set)
  with assms t(1) show ?thesis by auto
qed

lemma run_error_skips:
  "run (map (\<lambda>(n, a, m). Use n a m) pre @ ls) (Some e) req res tr = run ls (Some e) req res tr"
  by (induction pre) auto

lemma run_everywhere_chain:
  assumes "s \<in> set (trace (run (map (\<lambda>(n, a, m). Use n a m) pre @ ls) None req res tr))"
    and "s \<notin> set tr"
    and "s \<notin> set (concat (map fst pre))"
    and "\<forall>(n, a, m) \<in> set pre. a = everywhere"
    and "\<And>e req' res' tr'. s \<notin> set tr' \<Longrightarrow> s \<notin> set (trace (run ls (Some e) req' res' tr'))"
  shows "\<exists>req' res'. run (map (\<lambda>(n, a, m). Use n a m) pre @ ls) None req res tr
           = run ls None req' res' (tr @ concat (map fst pre))"
  using assms(1-4)
proof (induction pre arbitrary: req res tr)
  case Nil
  then show ?case by auto
next
  case (Cons p pre)
  obtain n a m where p: "p = (n, a, m)" by (cases p)
  with Cons.prems have a: "a = everywhere" and sn: "s \<notin> set n"
    and spre: "s \<notin> set (concat (map fst pre))" and allpre: "\<forall>(n, a, m) \<in> set pre. a = everywhere"
    by auto
  show ?case
  proof (cases "m req res")
    case (Next req' res')
    with Cons.prems(1) p a
    have "s \<in> set (trace (run (map (\<lambda>(n, a, m). Use n a m) pre @ ls) None req' res' (tr @ n)))"
      by (simp add: everywhere_def)
    moreover have "s \<notin> set (tr @ n)" using Cons.prems(2) sn by simp
    ultimately obtain req'' res'' where
      "run (map (\<lambda>(n, a, m). Use n a m) pre @ ls) None req' res' (tr @ n)
         = run ls None req'' res'' ((tr @ n) @ concat (map fst pre))"
      using Cons.IH spre allpre by blast
    with p a Next show ?thesis by (auto simp: everywhere_def)
  next
    case (NextErr e req' res')
    with Cons.prems(1) p a
    have "s \<in> set (trace (run ls (Some e) req' res' (tr @ n)))"
      by (simp add: everywhere_def run_error_skips)
    moreover have "s \<notin> set (tr @ n)" using Cons.prems(2) sn by simp
    ultimately show ?thesis using assms(5) by blast
  next
    case (End res')
    with Cons.prems(1) p a have "s \<in> set (tr @ n)" by (simp add: everywhere_def)
    with Cons.prems(2) sn show ?thesis by simp
  qed
qed


lemma dispatch_after_upstream:
  assumes "Dispatch \<in> set (trace (handle X L W req))"
  shows "prefix upstream (trace (handle X L W req))"
proof -
  define pre where "pre =
    [([CookieParser], everywhere, cookieParser X),
     ([ParseJson], everywhere, jsonParser X),
     ([ParseUrlencoded], everywhere, urlencodedParser X),
     ([Logger], everywhere, morgan X),
     ([CompulsoryCors], everywhere, cors compulsory_cors),
     ([EnhancedCors], everywhere, cors (corsOptions W)),
     ([SetCorsHeaders, IfPreflight], everywhere, cors_headers),
     ([OriginGuard], everywhere, origin_guard W)]"
  define rest where "rest =
    [Use [XssFilter] everywhere (xssFilter X),
     Use [SanitizeBody] everywhere (sanitize_body L),
     Use [MongoPatternStrip] everywhere (mongoSanitize X),
     UseError [LogErrors] (logErrors X),
     Use [NotFound] get_route not_found]"
  define gate where "gate = Use [VersionGate] (under X ''/clientApis'') (appVersionValidator X)"
  define disp where "disp = Use [Dispatch] (under X ''/clientApis'') (router X)"
  define tr9 where "tr9 = [CookieParser, ParseJson, ParseUrlencoded, Logger, CompulsoryCors,
    EnhancedCors, SetCorsHeaders, IfPreflight, OriginGuard]"
  have layers: "app_layers X L W = map (\<lambda>(n, a, m). Use n a m) pre @ (gate # disp # rest)"
    by (simp add: app_layers_def pre_def rest_def gate_def disp_def)
  have names: "concat (map fst pre) = tr9" by (simp add: pre_def tr9_def)
  have no_rest: "Dispatch \<notin> set (concat (map stages rest))" by (simp add: rest_def)
  have in_rest: "Dispatch \<notin> set (trace (run rest err rq rs tr))" if "Dispatch \<notin> set tr"
    for err rq rs tr
    using trace_stage_origin [of Dispatch rest err rq rs tr] that no_rest by blast
  have in_err: "Dispatch \<notin> set (trace (run (gate # disp # rest) (Some e) rq rs tr))"
    if "Dispatch \<notin> set tr" for e rq rs tr
    using in_rest [OF that] by (simp add: gate_def disp_def)
  from assms have reach: "Dispatch \<in> set (trace (run (map (\<lambda>(n, a, m). Use n a m) pre @ (gate # disp # rest))
      None req fresh_response []))"
    by (simp add: handle_def layers)
  have "\<exists>req' res'. run (map (\<lambda>(n, a, m). Use n a m) pre @ (gate # disp # rest)) None req fresh_response []
      = run (gate # disp # rest) None req' res' ([] @ concat (map fst pre))"
  proof (rule run_everywhere_chain [OF reach])
    show "Dispatch \<notin> set []" by simp
    show "Dispatch \<notin> set (concat (map fst pre))" by (simp add: names tr9_def)
    show "\<forall>(n, a, m) \<in> set pre. a = everywhere" by (simp add: pre_def)
    show "Dispatch \<notin> set (trace (run (gate # disp # rest) (Some e) req' res' tr'))"
      if "Dispatch \<notin> set tr'" for e req' res' tr'
      using in_err [OF that] .
  qed
  then obtain req1 res1 where eq1: "handle X L W req = run (gate # disp # rest) None req1 res1 tr9"
    by (auto simp: handle_def layers names)
  have fresh9: "Dispatch \<notin> set tr9" by (simp add: tr9_def)
  have fresh10: "Dispatch \<notin> set (tr9 @ [VersionGate])" by (simp add: tr9_def)
  from assms eq1 have r1: "Dispatch \<in> set (trace (run (gate # disp # rest) None req1 res1 tr9))"
    by simp
  have g1: "under X ''/clientApis'' req1"
  proof (rule ccontr)
    assume "\<not> under X ''/clientApis'' req1"
    then have "run (gate # disp # rest) None req1 res1 tr9 = run rest None req1 res1 tr9"
      by (simp add: gate_def disp_def)
    with r1 in_rest [OF fresh9] show False by simp
  qed
  obtain req2 res2 where v: "appVersionValidator X req1 res1 = Next req2 res2"
  proof (cases "appVersionValidator X req1 res1")
    case (Next req2 res2)
    then show ?thesis using that by blast
  next
    case (NextErr e req2 res2)
    with g1 have "run (gate # disp # rest) None req1 res1 tr9
        = run rest (Some e) req2 res2 (tr9 @ [VersionGate])"
      by (simp add: gate_def disp_def)
    with r1 in_rest [OF fresh10] show ?thesis by simp
  next
    case (End res2)
    with g1 have "trace (run (gate # disp # rest) None req1 res1 tr9) = tr9 @ [VersionGate]"
      by (simp add: gate_def)
    with r1 fresh10 show ?thesis by simp
  qed
  with g1 have eq2: "run (gate # disp # rest) None req1 res1 tr9
      = run (disp # rest) None req2 res2 (tr9 @ [VersionGate])"
    by (simp add: gate_def)
  have g2: "under X ''/clientApis'' req2"
  proof (rule ccontr)
    assume "\<not> under X ''/clientApis'' req2"
    then have "run (disp # rest) None req2 res2 (tr9 @ [VersionGate])
        = run rest None req2 res2 (tr9 @ [VersionGate])"
      by (simp add: disp_def)
    with r1 eq2 in_rest [OF fresh10] show False by simp
  qed
  obtain t where t: "trace (run (disp # rest) None req2 res2 (tr9 @ [VersionGate]))
      = ((tr9 @ [VersionGate]) @ [Dispatch]) @ t"
  proof (cases "router X req2 res2")
    case (Next req3 res3)
    obtain t where "trace (run rest None req3 res3 ((tr9 @ [VersionGate]) @ [Dispatch]))
        = ((tr9 @ [VersionGate]) @ [Dispatch]) @ t"
      using run_trace by blast
    with Next g2 that show ?thesis by (simp add: disp_def)
  next
    case (NextErr e req3 res3)
    obtain t where "trace (run rest (Some e) req3 res3 ((tr9 @ [VersionGate]) @ [Dispatch]))
        = ((tr9 @ [VersionGate]) @ [Dispatch]) @ t"
      using run_trace by blast
    with NextErr g2 that show ?thesis by (simp add: disp_def)
  next
    case (End res3)
    with g2 that [of "[]"] show ?thesis by (simp add: disp_def)
  qed
  have "upstream = (tr9 @ [VersionGate]) @ [Dispatch]" by (simp add: upstream_def tr9_def)
  with t eq1 eq2 have "trace (handle X L W req) = upstream @ t" by simp
  then show ?thesis by (simp add: prefix_def)
qed

lemmas eval_defs = handle_def app_layers_def sample_externals_def sample_request_def
      fresh_response_def everywhere_def under_def get_route_def not_found_def
      cors_def cors_respond_def compulsory_cors_def
      cors_defaults_def corsOptions_def origin_callback_def configureOrigin_def
      configureCredentials_def configureMethods_def configureAllowedHeaders_def configureMaxAge_def
      apply_header_def set_header_def vary_def cors_headers_def
      origin_guard_def blocked_body_def sanitize_body_def Let_def


lemma map_of_put: "map_of (put k v hs) k' = (if k' = k then Some v else map_of hs k')"
  by (induction hs) auto

lemma header_set_header:
  "header (set_header k v res) k' = (if k' = k then Some v else header res k')"
  by (simp add: header_def set_header_def map_of_put)

lemma header_vary: "header (vary f res) k = header res k"
  by (simp add: header_def vary_def)

lemma header_apply_header:
  "header (apply_header k v res) k' = (if k' = k \<and> truthy v then v else header res k')"
  by (cases v) (auto simp: apply_header_def header_set_header)

lemma header_status: "header (res\<lparr>res_status := n\<rparr>) k = header res k"
  by (simp add: header_def)

lemma payload_set_header: "res_payload (set_header k v res) = res_payload res"
  by (simp add: set_header_def)

lemma payload_vary: "res_payload (vary f res) = res_payload res"
  by (simp add: vary_def)

lemma payload_apply_header: "res_payload (apply_header k v res) = res_payload res"
  by (cases v) (auto simp: apply_header_def payload_set_header)

lemma status_set_header: "res_status (set_header k v res) = res_status res"
  by (simp add: set_header_def)

lemma compulsory_cors_answers_preflight:
  assumes "req_method req = OPTIONS"
  shows "\<exists>res'. cors compulsory_cors req res = End res'
           \<and> res_status res' = 204
           \<and> res_payload res' = res_payload res
           \<and> header res' ''Access-Control-Allow-Methods'' = Some ''GET,HEAD,PUT,PATCH,POST,DELETE''"
  using assms
  by (simp add: cors_def cors_respond_def compulsory_cors_def cors_defaults_def
      configureMaxAge_def configureAllowedHeaders_def configureMethods_def
      configureCredentials_def configureOrigin_def
      header_set_header header_vary header_apply_header header_status
      payload_set_header payload_vary payload_apply_header status_set_header)

lemma enhanced_cors_rejects:
  assumes "req_origin req = Some origin" and "origin \<noteq> []" and "origin \<notin> set W"
  shows "cors (corsOptions W) req res = NextErr (Error ''Not allowed by CORS'') req res"
  using assms by (simp add: cors_def corsOptions_def origin_callback_def)

text \<open>
  Whatever the collaborators do, the stages up to the dispatcher run in the order of the
  file, each at most once, and a request that reaches the dispatcher has been through all
  of them. The stage \<open>SanitizeBody\<close> is not among them: no request is dispatched
  after it.
\<close>

lemma pipeline_order:
  "subseq (filter (\<lambda>s. s \<in> set upstream) (trace (handle X L W req))) upstream
   \<and> distinct (trace (handle X L W req))
   \<and> (Dispatch \<in> set (trace (handle X L W req)) \<longrightarrow> subseq upstream (trace (handle X L W req)))"
proof (intro conjI impI)
  have "subseq (filter (\<lambda>s. s \<in> set upstream) (trace (handle X L W req)))
          (filter (\<lambda>s. s \<in> set upstream)
             (upstream @ [XssFilter, SanitizeBody, MongoPatternStrip, LogErrors, NotFound]))"
    by (rule subseq_filter) (rule trace_handle_subseq)
  then show "subseq (filter (\<lambda>s. s \<in> set upstream) (trace (handle X L W req))) upstream"
    by (simp add: upstream_def)
  have "distinct (upstream @ [XssFilter, SanitizeBody, MongoPatternStrip, LogErrors, NotFound])"
    by (simp add: upstream_def)
  then show "distinct (trace (handle X L W req))"
    using trace_handle_subseq distinct_subseq by blast
  assume "Dispatch \<in> set (trace (handle X L W req))"
  then have "prefix upstream (trace (handle X L W req))"
    by (rule dispatch_after_upstream)
  then show "subseq upstream (trace (handle X L W req))"
    by (rule prefix_imp_subseq)
qed

lemma dispatched_unsanitised:
  assumes "Dispatch \<in> set (trace (handle X L W req))"
  shows "SanitizeBody \<notin> set (takeWhile (\<lambda>s. s \<noteq> Dispatch) (trace (handle X L W req)))"
proof -
  from assms have "prefix upstream (trace (handle X L W req))"
    by (rule dispatch_after_upstream)
  then obtain t where "trace (handle X L W req) = upstream @ t"
    by (auto simp: prefix_def)
  then show ?thesis by (simp add: upstream_def)
qed

text \<open>
  C2. A \<open>POST\<close> to \<open>/clientApis/v2/cart/u1\<close> from a listed origin reaches the
  dispatcher with its body as it was parsed. The router (here answering with the body it
  was handed) sees \<open>"  Ann  "\<close>, and no \<open>SanitizeBody\<close> stage has run: that
  middleware is registered after the router. The preflight test has run before the origin
  guard.
\<close>

theorem dispatched_before_sanitize:
  "handle sample_externals sample_lib [''https://shop.example'']
     (sample_request POST ''/clientApis/v2/cart/u1'' (Some ''https://shop.example'')
        (JObject [(''name'', JString ''  Ann  '')]))
   = Responded
       \<lparr> res_status = 200,
         res_headers =
           [(''Access-Control-Allow-Origin'', ''https://shop.example''),
            (''Access-Control-Allow-Credentials'', ''true''),
            (''Access-Control-Allow-Methods'', ''GET,HEAD,PUT,PATCH,POST,DELETE,OPTIONS''),
            (''Access-Control-Allow-Headers'',
             ''Origin, X-Requested-With, Content-Type, Accept, Authorization'')],
         res_vary = [''Origin''],
         res_payload = JsonPayload (JObject [(''name'', JString ''  Ann  '')]) \<rparr>
       [CookieParser, ParseJson, ParseUrlencoded, Logger, CompulsoryCors, EnhancedCors,
        SetCorsHeaders, IfPreflight, OriginGuard, VersionGate, Dispatch]"
  by (simp add: eval_defs)

text \<open>The sanitiser, had it run, would have handed on another body.\<close>

lemma sanitized_elsewhere:
  "sanitize sample_lib (stack_room sample_lib) (JObject [(''name'', JString ''  Ann  '')])
     = Inr (JObject [(''name'', JString ''Ann'')])"
  by (simp add: sample_lib_def eval_nat_numeral own_hasOwnProperty_def customEscape_def
      purify_sanitize_def validator_trim_def js_whitespace_def)

subsection \<open>The origin guard\<close>

text \<open>
  A request that the second \<open>cors\<close> middleware lets through has an origin that its
  origin function allows, and the guard allows the same origins. So the guard never
  rejects: the application answers every request as it would with a guard that always
  calls \<open>next()\<close>.
\<close>

lemma cors_respond_Next:
  "cors_respond opts star req res = Next req' res' \<Longrightarrow> req' = req"
  by (auto simp: cors_respond_def Let_def split: if_splits)

lemma enhanced_cors_Next:
  assumes "cors (corsOptions W) req res = Next req' res'"
  shows "req' = req \<and> origin_callback W (req_origin req) = Inr True"
proof (cases "origin_callback W (req_origin req)")
  case (Inl e)
  with assms show ?thesis by (simp add: cors_def corsOptions_def)
next
  case (Inr b)
  then have b: "b" by (auto simp: origin_callback_def split: if_splits)
  with assms Inr
  have "cors_respond (corsOptions W) False req res = Next req' res'"
    by (simp add: cors_def corsOptions_def)
  then have "req' = req" by (rule cors_respond_Next)
  with Inr b show ?thesis by simp
qed

lemma cors_headers_Next: "cors_headers req res = Next req' res' \<Longrightarrow> req' = req"
  by (auto simp: cors_headers_def Let_def split: if_splits)

lemma origin_guard_passes:
  assumes "origin_callback W (req_origin req) = Inr True"
  shows "origin_guard W req res = Next req res"
  using assms
  by (cases "req_origin req") (auto simp: origin_callback_def origin_guard_def split: if_splits)

lemma run_cong_tail:
  assumes "\<And>err req res tr. run ls err req res tr = run ls' err req res tr"
  shows "run (l # ls) err req res tr = run (l # ls') err req res tr"
proof (cases l)
  case (Use names applies mw)
  show ?thesis
  proof (cases err)
    case None
    with Use assms show ?thesis by (cases "mw req res") simp_all
  next
    case (Some e)
    with Use assms show ?thesis by simp
  qed
next
  case (UseError names h)
  show ?thesis
  proof (cases err)
    case None
    with UseError assms show ?thesis by simp
  next
    case (Some e)
    with UseError assms show ?thesis by (cases "h e req res") simp_all
  qed
qed

lemma guard_after_cors:
  "run (Use [EnhancedCors] everywhere (cors (corsOptions W))
        # Use [SetCorsHeaders, IfPreflight] everywhere cors_headers
        # Use [OriginGuard] everywhere (origin_guard W) # rest) err req res tr
   = run (Use [EnhancedCors] everywhere (cors (corsOptions W))
        # Use [SetCorsHeaders, IfPreflight] everywhere cors_headers
        # Use [OriginGuard] everywhere Next # rest) err req res tr"
proof (cases err)
  case (Some e)
  then show ?thesis by simp
next
  case None
  show ?thesis
  proof (cases "cors (corsOptions W) req res")
    case (NextErr e req1 res1)
    with None show ?thesis by (simp add: everywhere_def)
  next
    case (End res1)
    with None show ?thesis by (simp add: everywhere_def)
  next
    case (Next req1 res1)
    then have r1: "req1 = req" and ok: "origin_callback W (req_origin req) = Inr True"
      using enhanced_cors_Next by blast+
    show ?thesis
    proof (cases "cors_headers req res1")
      case (NextErr e req2 res2)
      with None Next r1 show ?thesis by (simp add: everywhere_def)
    next
      case (End res2)
      with None Next r1 show ?thesis by (simp add: everywhere_def)
    next
      case inner: (Next req2 res2)
      then have "req2 = req" by (rule cors_headers_Next)
      with None Next r1 inner origin_guard_passes [OF ok, of res2]
      show ?thesis by (simp add: everywhere_def)
    qed
  qed
qed

lemma guard_is_dead_code:
  "handle X L W req
   = run ((app_layers X L W)[7 := Use [OriginGuard] everywhere Next]) None req fresh_response []"
proof -
  have replaced: "(app_layers X L W)[7 := Use [OriginGuard] everywhere Next] =
     [ Use [CookieParser] everywhere (cookieParser X),
       Use [ParseJson] everywhere (jsonParser X),
       Use [ParseUrlencoded] everywhere (urlencodedParser X),
       Use [Logger] everywhere (morgan X),
       Use [CompulsoryCors] everywhere (cors compulsory_cors),
       Use [EnhancedCors] everywhere (cors (corsOptions W)),
       Use [SetCorsHeaders, IfPreflight] everywhere cors_headers,
       Use [OriginGuard] everywhere Next,
       Use [VersionGate] (under X ''/clientApis'') (appVersionValidator X),
       Use [Dispatch] (under X ''/clientApis'') (router X),
       Use [XssFilter] everywhere (xssFilter X),
       Use [SanitizeBody] everywhere (sanitize_body L),
       Use [MongoPatternStrip] everywhere (mongoSanitize X),
       UseError [LogErrors] (logErrors X),
       Use [NotFound] get_route not_found ]"
    by (simp add: app_layers_def)
  show ?thesis
    unfolding handle_def replaced
    unfolding app_layers_def
    by (intro run_cong_tail guard_after_cors)
qed

text \<open>
  C1. The whitelist is \<open>["https://shop.example"]\<close> and a \<open>GET\<close> comes from
  \<open>https://evil.example\<close>. The second \<open>cors\<close> middleware hands the error of its
  origin function to the error handlers; the guard is skipped, no status 403 and no JSON
  body are set, and Express's final handler answers for the error.
\<close>

theorem blocked_origin_not_rejected_by_guard:
  "handle sample_externals sample_lib [''https://shop.example'']
     (sample_request GET ''/clientApis/v1/on_search'' (Some ''https://evil.example'') JUndefined)
   = FinalHandler (Some (Error ''Not allowed by CORS''))
       (sample_request GET ''/clientApis/v1/on_search'' (Some ''https://evil.example'') JUndefined)
       \<lparr> res_status = 200,
         res_headers =
           [(''Access-Control-Allow-Origin'', ''https://evil.example''),
            (''Access-Control-Allow-Credentials'', ''true'')],
         res_vary = [''Origin''],
         res_payload = NoPayload \<rparr>
       [CookieParser, ParseJson, ParseUrlencoded, Logger, CompulsoryCors, EnhancedCors, LogErrors]"
  by (simp add: eval_defs)

text \<open>
  C3. A preflight from a listed origin is answered by the first \<open>cors\<close> middleware:
  status 204, nothing sent, and \<open>Access-Control-Allow-Methods\<close> as that middleware
  writes it, without \<open>OPTIONS\<close>. The middleware that would write the longer list is
  not reached.
\<close>

theorem preflight_allow_methods:
  "handle sample_externals sample_lib [''https://shop.example'']
     (sample_request OPTIONS ''/clientApis/v2/cart/u1'' (Some ''https://shop.example'') JUndefined)
   = Responded
       \<lparr> res_status = 204,
         res_headers =
           [(''Access-Control-Allow-Origin'', ''https://shop.example''),
            (''Access-Control-Allow-Credentials'', ''true''),
            (''Access-Control-Allow-Methods'', ''GET,HEAD,PUT,PATCH,POST,DELETE''),
            (''Content-Length'', ''0'')],
         res_vary = [''Origin'', ''Access-Control-Request-Headers''],
         res_payload = NoPayload \<rparr>
       [CookieParser, ParseJson, ParseUrlencoded, Logger, CompulsoryCors]"
  by (simp add: eval_defs)

subsection \<open>The origin decision\<close>

text \<open>
  C4, as amended. A request without an \<open>Origin\<close> header is allowed. One with the header
  is allowed exactly when the header is empty or equal to an entry of the whitelist,
  character for character; otherwise the origin function reports the error. The origin
  guard ends a request exactly when the origin function does not allow its origin.
\<close>

theorem origin_decision:
  "origin_callback W None = Inr True
   \<and> origin_callback W (Some s)
       = (if s = [] \<or> s \<in> set W then Inr True else Inl (Error ''Not allowed by CORS''))
   \<and> ((\<exists>res'. origin_guard W req res = End res') \<longleftrightarrow> origin_callback W (req_origin req) \<noteq> Inr True)"
  by (cases "req_origin req") (auto simp: origin_callback_def origin_guard_def)

text \<open>
  C4 as stated fails for the empty string: it is no entry of this whitelist, and it is
  allowed.
\<close>

theorem empty_origin_counterexample:
  "origin_callback [''https://shop.example''] (Some '''') = Inr True
   \<and> '''' \<notin> set [''https://shop.example'']"
  by (simp add: origin_callback_def)

subsection \<open>Start-up\<close>

lemma split_comma_nonempty: "split_comma s \<noteq> []"
  by (induction s) (auto split: list.splits)

text \<open>
  C9, as amended. When the whitelist variable is missing or empty, start-up ends with the
  error and nothing listens. When it holds a string that is not empty, the whitelist is
  the list of its comma-separated pieces, each trimmed; that list is not empty; and the
  program listens (if the database connects) with exactly that whitelist.
\<close>

theorem startup_whitelist:
  "(\<not> truthy (env ''CORS_WHITELIST_URLS'') \<longrightarrow>
      bootstrap env db = Crashed (Error ''CORS_WHITELIST_URLS environment variable is not set''))
   \<and> (env ''CORS_WHITELIST_URLS'' = Some s \<and> s \<noteq> [] \<longrightarrow>
        read_whitelist env = Inr (map js_trim (split_comma s))
        \<and> map js_trim (split_comma s) \<noteq> []
        \<and> (\<exists>port. bootstrap env db
              = (if db then Listening port (map js_trim (split_comma s))
                 else NotListening (map js_trim (split_comma s)))))"
  by (auto simp: bootstrap_def read_whitelist_def split_comma_nonempty)

theorem startup_whitelist_witness:
  "bootstrap Map.empty True
     = Crashed (Error ''CORS_WHITELIST_URLS environment variable is not set'')
   \<and> read_whitelist (Map.empty(''CORS_WHITELIST_URLS'' \<mapsto> '' https://a.example , https://b.example''))
       = Inr (map js_trim (split_comma '' https://a.example , https://b.example''))"
proof -
  have h1: "\<not> truthy (Map.empty ''CORS_WHITELIST_URLS'')" by simp
  have h2: "(Map.empty(''CORS_WHITELIST_URLS'' \<mapsto> '' https://a.example , https://b.example''))
              ''CORS_WHITELIST_URLS'' = Some '' https://a.example , https://b.example''
            \<and> '' https://a.example , https://b.example'' \<noteq> []" by simp
  from startup_whitelist [where env = Map.empty and db = True] h1
       startup_whitelist [where env = "Map.empty(''CORS_WHITELIST_URLS'' \<mapsto> '' https://a.example , https://b.example'')"
                            and s = "'' https://a.example , https://b.example''" and db = True] h2
  show ?thesis by blast
qed

text \<open>
  C9 as stated fails when the variable is set to the empty string: it is present, and
  start-up ends with the error instead of a whitelist.
\<close>

theorem startup_empty_value_counterexample:
  "bootstrap (Map.empty(''CORS_WHITELIST_URLS'' \<mapsto> '''')) True
     = Crashed (Error ''CORS_WHITELIST_URLS environment variable is not set'')"
  by (simp add: bootstrap_def read_whitelist_def)

end
